theory Spec2Isabelle
  imports Main "HOL-Library.Word"
begin

section \<open>Strings and numbers of the source language\<close>

text \<open>
  A TypeScript string is a sequence of UTF-16 code units; \<open>length\<close> counts code units.
  \<open>str\<close> embeds an ASCII literal of the source.
\<close>

type_synonym jsstring = "16 word list"

definition str :: "string \<Rightarrow> jsstring" where
  "str s = map of_char s"

text \<open>
  \<open>String.prototype.trim\<close> strips, at both ends, the code units that ECMAScript classes as
  WhiteSpace or LineTerminator: TAB, LF, VT, FF, CR, SPACE, NBSP, U+1680, U+2000 to U+200A,
  U+2028, U+2029, U+202F, U+205F, U+3000 and U+FEFF. All of them are single code units.
\<close>

definition isWhiteSpace :: "16 word \<Rightarrow> bool" where
  "isWhiteSpace c \<longleftrightarrow>
     c = 0x09 \<or> c = 0x0A \<or> c = 0x0B \<or> c = 0x0C \<or> c = 0x0D \<or> c = 0x20 \<or> c = 0xA0 \<or>
     c = 0x1680 \<or> (0x2000 \<le> c \<and> c \<le> 0x200A) \<or> c = 0x2028 \<or> c = 0x2029 \<or>
     c = 0x202F \<or> c = 0x205F \<or> c = 0x3000 \<or> c = 0xFEFF"

definition trim :: "jsstring \<Rightarrow> jsstring" where
  "trim s = rev (dropWhile isWhiteSpace (rev (dropWhile isWhiteSpace s)))"

text \<open>
  A template literal renders an integer-valued number in decimal, with a leading minus sign
  when negative. \<open>Date.now()\<close> is an integer number of milliseconds; an array index is a
  natural number.
\<close>

fun showNat :: "nat \<Rightarrow> jsstring" where
  "showNat n = (if n < 10 then [of_nat (48 + n)] else showNat (n div 10) @ [of_nat (48 + n mod 10)])"

definition showInt :: "int \<Rightarrow> jsstring" where
  "showInt i = (if i < 0 then str ''-'' @ showNat (nat (- i)) else showNat (nat i))"

section \<open>Data model\<close>

text \<open>
  The three interfaces of \<open>types.ts\<close>. The field \<open>id\<close>, which the three interfaces share,
  is \<open>user_id\<close>, \<open>opt_id\<close> and \<open>poll_id\<close>; the field \<open>text\<close> is \<open>opt_text\<close>.
  \<open>votes\<close> is a \<open>number\<close> of the source
  that only ever holds a natural number (the seed data writes literals, \<open>createPoll\<close> writes
  0 and \<open>castVote\<close> adds 1); it is modelled by \<open>nat\<close>. The source's \<open>votes += 1\<close> is the
  model's \<open>+ 1\<close> for every count below \<open>2^53\<close>; from \<open>2^53\<close> on the double no longer adds
  one. In a storage the service has produced, a count exceeds the number of recorded voters
  of its poll by 43 at most (\<open>reachable_votes_bound\<close> below); the statement of what a successful
  vote returns, which covers any storage, carries the bound \<open>2^53\<close> as a hypothesis.
\<close>

record User =
  user_id :: jsstring
  username :: jsstring

record PollOption =
  opt_id :: jsstring
  opt_text :: jsstring
  votes :: nat

record Poll =
  poll_id :: jsstring
  question :: jsstring
  options :: "PollOption list"
  createdBy :: jsstring
  votedBy :: "jsstring list"

text \<open>Every failure of the service is \<open>throw new Error(message)\<close>.\<close>

datatype error = Error jsstring

section \<open>The mock database (localStorage)\<close>

text \<open>
  The service keeps two keys in \<open>localStorage\<close>: \<open>polly_polls\<close> and \<open>polly_current_user\<close>.
  Each holds the \<open>JSON.stringify\<close> image of a value and is read back with \<open>JSON.parse\<close>;
  on records of strings and natural numbers that round trip is the identity, so the model
  stores the value itself. \<open>None\<close> is an absent key (\<open>getItem\<close> returns \<open>null\<close>).
\<close>

record storage =
  polly_polls :: "Poll list option"
  polly_current_user :: "User option"

definition initialPolls :: "Poll list" where
  "initialPolls =
     [\<lparr>poll_id = str ''poll-1'',
       question = str ''What is your favorite frontend framework?'',
       options =
         [\<lparr>opt_id = str ''opt-1-1'', opt_text = str ''React'', votes = 15\<rparr>,
          \<lparr>opt_id = str ''opt-1-2'', opt_text = str ''Vue'', votes = 8\<rparr>,
          \<lparr>opt_id = str ''opt-1-3'', opt_text = str ''Svelte'', votes = 12\<rparr>,
          \<lparr>opt_id = str ''opt-1-4'', opt_text = str ''Angular'', votes = 3\<rparr>],
       createdBy = str ''user-1'',
       votedBy = []\<rparr>,
      \<lparr>poll_id = str ''poll-2'',
       question = str ''Which ALX track is the most challenging?'',
       options =
         [\<lparr>opt_id = str ''opt-2-1'', opt_text = str ''Foundations'', votes = 5\<rparr>,
          \<lparr>opt_id = str ''opt-2-2'', opt_text = str ''Specialization (e.g., Frontend)'', votes = 20\<rparr>,
          \<lparr>opt_id = str ''opt-2-3'', opt_text = str ''Project Phase'', votes = 18\<rparr>],
       createdBy = str ''user-2'',
       votedBy = []\<rparr>]"

text \<open>The self-invoking initialiser at module load: seed only when the key is absent.\<close>

definition init :: "storage \<Rightarrow> storage" where
  "init st = (if polly_polls st = None then st\<lparr>polly_polls := Some initialPolls\<rparr> else st)"

section \<open>Authentication flows\<close>

text \<open>
  Each operation takes the storage and returns its result with the storage it leaves.
  A thrown \<open>Error\<close> (a rejected promise) is \<open>Inl\<close>, paired with the storage at the time
  of the throw. The operations are asynchronous only through their simulated network delays;
  the model runs each call to completion before the next one starts, which is the one caller
  at a time the service is written for, and takes every \<open>setItem\<close> to succeed. \<open>now\<close> is the
  value \<open>Date.now()\<close> returns.
\<close>

definition signIn :: "storage \<Rightarrow> int \<Rightarrow> jsstring \<Rightarrow> (error + User) \<times> storage" where
  "signIn st now uname =
     (if uname = [] \<or> length (trim uname) < 3
      then (Inl (Error (str ''Username must be at least 3 characters long.'')), st)
      else
        let newUser = \<lparr>user_id = str ''user-'' @ showInt now, username = trim uname\<rparr>
        in (Inr newUser, st\<lparr>polly_current_user := Some newUser\<rparr>))"

definition signOut :: "storage \<Rightarrow> storage" where
  "signOut st = st\<lparr>polly_current_user := None\<rparr>"

definition getCurrentUser :: "storage \<Rightarrow> User option" where
  "getCurrentUser st = polly_current_user st"

section \<open>Poll management\<close>

definition getPolls :: "storage \<Rightarrow> Poll list" where
  "getPolls st = (case polly_polls st of None \<Rightarrow> [] | Some polls \<Rightarrow> polls)"

text \<open>
  \<open>createPoll\<close> calls \<open>Date.now()\<close> once for the poll id (\<open>now\<close>) and once per option
  (\<open>nowAt index\<close>). \<open>options.map((opt, index) => ...)\<close> is a map over the enumerated list.
\<close>

definition createPoll ::
  "storage \<Rightarrow> int \<Rightarrow> (nat \<Rightarrow> int) \<Rightarrow> jsstring \<Rightarrow> jsstring list \<Rightarrow> jsstring \<Rightarrow> (error + Poll) \<times> storage" where
  "createPoll st now nowAt q opts userId =
     (if trim q = [] \<or> length opts < 2 \<or> (\<exists>opt \<in> set opts. trim opt = [])
      then (Inl (Error (str ''A poll requires a question and at least two non-empty options.'')), st)
      else
        let newPoll =
              \<lparr>poll_id = str ''poll-'' @ showInt now,
               question = q,
               options = map (\<lambda>(index, opt).
                               \<lparr>opt_id = str ''opt-'' @ showInt (nowAt index) @ str ''-'' @ showNat index,
                                opt_text = opt,
                                votes = 0\<rparr>)
                             (enumerate 0 opts),
               createdBy = userId,
               votedBy = []\<rparr>;
            polls = getPolls st;
            updatedPolls = polls @ [newPoll]
        in (Inr newPoll, st\<lparr>polly_polls := Some updatedPolls\<rparr>))"

section \<open>Voting\<close>

text \<open>
  \<open>Array.prototype.findIndex\<close>: the index of the first element satisfying the predicate;
  the source's result \<open>-1\<close> (no such element) is \<open>None\<close>.
\<close>

fun findIndex :: "('a \<Rightarrow> bool) \<Rightarrow> 'a list \<Rightarrow> nat option" where
  "findIndex P [] = None"
| "findIndex P (x # xs) =
     (if P x then Some 0 else (case findIndex P xs of None \<Rightarrow> None | Some i \<Rightarrow> Some (Suc i)))"

text \<open>
  \<open>castVote\<close> parses the collection, mutates the parsed poll in place and writes the whole
  collection back. Every \<open>throw\<close> precedes the first mutation and the only \<open>setItem\<close>.
\<close>

definition castVote ::
  "storage \<Rightarrow> jsstring \<Rightarrow> jsstring \<Rightarrow> jsstring \<Rightarrow> (error + Poll) \<times> storage" where
  "castVote st pollId optionId userId =
     (let polls = getPolls st in
      case findIndex (\<lambda>p. poll_id p = pollId) polls of
        None \<Rightarrow> (Inl (Error (str ''Poll not found. It may have been deleted.'')), st)
      | Some pollIndex \<Rightarrow>
          let poll = polls ! pollIndex in
          if userId \<in> set (votedBy poll)
          then (Inl (Error (str ''You have already voted on this poll.'')), st)
          else
            (case findIndex (\<lambda>opt. opt_id opt = optionId) (options poll) of
               None \<Rightarrow> (Inl (Error (str ''Invalid option selected.'')), st)
             | Some optionIndex \<Rightarrow>
                 let opt = options poll ! optionIndex;
                     poll' = poll\<lparr>options := (options poll)[optionIndex := opt\<lparr>votes := votes opt + 1\<rparr>],
                                  votedBy := votedBy poll @ [userId]\<rparr>;
                     polls' = polls[pollIndex := poll']
                 in (Inr poll', st\<lparr>polly_polls := Some polls'\<rparr>)))"

section \<open>Notions used to state the properties\<close>

text \<open>
  The vote total of a poll, as \<open>PollCard\<close> computes it:
  \<open>poll.options.reduce((sum, option) => sum + option.votes, 0)\<close>.
\<close>

definition totalVotes :: "Poll \<Rightarrow> nat" where
  "totalVotes poll = foldl (\<lambda>sum option. sum + votes option) 0 (options poll)"

text \<open>By how much the vote total of a poll exceeds the number of recorded voters.\<close>

definition surplus :: "Poll \<Rightarrow> int" where
  "surplus poll = int (totalVotes poll) - int (length (votedBy poll))"

text \<open>A browser profile in which the service has never run: both keys absent.\<close>

definition emptyStorage :: storage where
  "emptyStorage = \<lparr>polly_polls = None, polly_current_user = None\<rparr>"

text \<open>A clock that does not advance during one call: every \<open>Date.now()\<close> returns \<open>t\<close>.\<close>

definition steadyClock :: "int \<Rightarrow> nat \<Rightarrow> int" where
  "steadyClock t index = t"

text \<open>
  The observation points: the storage after the module has loaded in a fresh profile, and
  after any sequence of completed operations and page reloads (a reload runs the
  initialiser again). A failed operation is a step too; it leaves the storage as it was.
\<close>

inductive reachable :: "storage \<Rightarrow> bool" where
  loaded: "reachable (init emptyStorage)"
| reloaded: "reachable st \<Longrightarrow> reachable (init st)"
| signedIn: "reachable st \<Longrightarrow> reachable (snd (signIn st now uname))"
| signedOut: "reachable st \<Longrightarrow> reachable (signOut st)"
| created: "reachable st \<Longrightarrow> reachable (snd (createPoll st now nowAt q opts userId))"
| voted: "reachable st \<Longrightarrow> reachable (snd (castVote st pollId optionId userId))"


section \<open>Basic facts\<close>

declare showNat.simps [simp del]

lemmas string_evals = trim_def isWhiteSpace_def str_def

subsection \<open>Trimming\<close>

lemma trim_Nil: "trim [] = []"
  by (simp add: trim_def)

lemma trim_ends:
  assumes "trim s \<noteq> []"
  shows "\<not> isWhiteSpace (hd (trim s)) \<and> \<not> isWhiteSpace (last (trim s))"
proof -
  let ?a = "dropWhile isWhiteSpace s"
  let ?b = "dropWhile isWhiteSpace (rev ?a)"
  from assms have b: "?b \<noteq> []" by (simp add: trim_def)
  have a: "?a \<noteq> []"
  proof
    assume "?a = []"
    then have "?b = []" by (simp only: rev.simps dropWhile.simps)
    with b show False by simp
  qed
  have "last (trim s) = hd ?b"
    using b by (simp add: trim_def last_rev)
  moreover have "\<not> isWhiteSpace (hd ?b)"
    using b by (rule hd_dropWhile)
  moreover have "hd (trim s) = last ?b"
    by (simp add: trim_def hd_rev)
  moreover have "last ?b = last (rev ?a)"
    using b by (metis append_butlast_last_id takeWhile_dropWhile_id last_appendR)
  moreover have "last (rev ?a) = hd ?a"
    using a by (simp add: last_rev)
  moreover have "\<not> isWhiteSpace (hd ?a)"
    using a by (rule hd_dropWhile)
  ultimately show ?thesis by simp
qed

subsection \<open>findIndex\<close>

lemma findIndex_None: "findIndex P xs = None \<longleftrightarrow> (\<forall>x \<in> set xs. \<not> P x)"
  by (induction xs) (auto split: option.splits)

lemma findIndex_Some:
  "findIndex P xs = Some i \<longleftrightarrow> i < length xs \<and> P (xs ! i) \<and> (\<forall>k<i. \<not> P (xs ! k))"
proof (induction xs arbitrary: i)
  case Nil
  then show ?case by simp
next
  case (Cons x xs)
  show ?case
  proof (cases "P x")
    case True
    then show ?thesis by (cases i) auto
  next
    case False
    show ?thesis
    proof (cases i)
      case 0
      with False show ?thesis by (simp split: option.splits)
    next
      case (Suc m)
      have "(\<forall>k<Suc m. \<not> P ((x # xs) ! k)) \<longleftrightarrow> (\<forall>k<m. \<not> P (xs ! k))"
        using False by (auto simp: less_Suc_eq_0_disj)
      with False Suc Cons.IH [of m] show ?thesis
        by (auto split: option.splits)
    qed
  qed
qed

lemma first_index_unique:
  assumes "P (xs ! i)" and "\<forall>k<i. \<not> P (xs ! k)"
    and "P (xs ! i')" and "\<forall>k<i'. \<not> P (xs ! k)"
  shows "i' = (i::nat)"
proof (rule ccontr)
  assume "i' \<noteq> i"
  then consider "i' < i" | "i < i'" by linarith
  then show False using assms by cases blast+
qed


subsection \<open>Reading the collection\<close>

lemma getPolls_seeded: "getPolls (init emptyStorage) = initialPolls"
  by (simp add: init_def emptyStorage_def getPolls_def)

lemma getPolls_stored: "getPolls (st\<lparr>polly_polls := Some ps\<rparr>) = ps"
  by (simp add: getPolls_def)

lemma getPolls_init: "getPolls st \<noteq> [] \<Longrightarrow> init st = st"
  by (auto simp: getPolls_def init_def split: option.splits)

lemma getPolls_signIn: "getPolls (snd (signIn st now uname)) = getPolls st"
  by (simp add: signIn_def getPolls_def Let_def)

lemma getPolls_signOut: "getPolls (signOut st) = getPolls st"
  by (simp add: signOut_def getPolls_def)

subsection \<open>The two outcomes of createPoll\<close>

lemma createPoll_cases:
  "createPoll st now nowAt q opts userId =
     (if trim q \<noteq> [] \<and> 2 \<le> length opts \<and> (\<forall>opt \<in> set opts. trim opt \<noteq> [])
      then (let newPoll =
              \<lparr>poll_id = str ''poll-'' @ showInt now,
               question = q,
               options = map (\<lambda>(index, opt).
                               \<lparr>opt_id = str ''opt-'' @ showInt (nowAt index) @ str ''-'' @ showNat index,
                                opt_text = opt,
                                votes = 0\<rparr>)
                             (enumerate 0 opts),
               createdBy = userId,
               votedBy = []\<rparr>
            in (Inr newPoll, st\<lparr>polly_polls := Some (getPolls st @ [newPoll])\<rparr>))
      else (Inl (Error (str ''A poll requires a question and at least two non-empty options.'')), st))"
  by (auto simp: createPoll_def Let_def)

lemma new_options_text:
  "map opt_text (map (\<lambda>(index, opt). \<lparr>opt_id = f index, opt_text = opt, votes = 0\<rparr>) (enumerate n opts))
     = opts"
  by (induction opts arbitrary: n) simp_all

subsection \<open>The four outcomes of castVote\<close>

lemma messages_distinct:
  "str ''Poll not found. It may have been deleted.'' \<noteq> str ''You have already voted on this poll.''"
  "str ''Poll not found. It may have been deleted.'' \<noteq> str ''Invalid option selected.''"
  "str ''You have already voted on this poll.'' \<noteq> str ''Invalid option selected.''"
  "str ''You have already voted on this poll.'' \<noteq> str ''Poll not found. It may have been deleted.''"
  "str ''Invalid option selected.'' \<noteq> str ''Poll not found. It may have been deleted.''"
  "str ''Invalid option selected.'' \<noteq> str ''You have already voted on this poll.''"
  by (simp_all add: str_def)

lemma castVote_cases:
  assumes "getPolls st = ps"
  shows "castVote st pollId optionId userId =
    (case findIndex (\<lambda>q. poll_id q = pollId) ps of
       None \<Rightarrow> (Inl (Error (str ''Poll not found. It may have been deleted.'')), st)
     | Some i \<Rightarrow>
        if userId \<in> set (votedBy (ps ! i))
        then (Inl (Error (str ''You have already voted on this poll.'')), st)
        else (case findIndex (\<lambda>x. opt_id x = optionId) (options (ps ! i)) of
                None \<Rightarrow> (Inl (Error (str ''Invalid option selected.'')), st)
              | Some j \<Rightarrow>
                 (Inr ((ps ! i)\<lparr>options := (options (ps ! i))
                                    [j := (options (ps ! i) ! j)\<lparr>votes := votes (options (ps ! i) ! j) + 1\<rparr>],
                                 votedBy := votedBy (ps ! i) @ [userId]\<rparr>),
                  st\<lparr>polly_polls :=
                       Some (ps[i := (ps ! i)\<lparr>options := (options (ps ! i))
                                    [j := (options (ps ! i) ! j)\<lparr>votes := votes (options (ps ! i) ! j) + 1\<rparr>],
                                 votedBy := votedBy (ps ! i) @ [userId]\<rparr>])\<rparr>)))"
  using assms by (simp add: castVote_def Let_def split: option.splits)

lemma castVote_notFound_iff:
  assumes "getPolls st = ps"
  shows "castVote st pollId optionId userId =
            (Inl (Error (str ''Poll not found. It may have been deleted.'')), st)
          \<longleftrightarrow> (\<forall>p \<in> set ps. poll_id p \<noteq> pollId)"
proof (cases "findIndex (\<lambda>q. poll_id q = pollId) ps")
  case None
  then have "castVote st pollId optionId userId =
            (Inl (Error (str ''Poll not found. It may have been deleted.'')), st)"
    using castVote_cases [OF assms, of pollId optionId userId] by simp
  moreover from None have "\<forall>p \<in> set ps. poll_id p \<noteq> pollId"
    by (simp add: findIndex_None)
  ultimately show ?thesis by blast
next
  case (Some i)
  then have "\<exists>p \<in> set ps. poll_id p = pollId"
    using nth_mem by (fastforce simp: findIndex_Some)
  moreover have "castVote st pollId optionId userId \<noteq>
            (Inl (Error (str ''Poll not found. It may have been deleted.'')), st)"
    using Some castVote_cases [OF assms, of pollId optionId userId]
    by (simp add: messages_distinct split: option.splits)
  ultimately show ?thesis by blast
qed

lemma castVote_conflict_iff:
  assumes "getPolls st = ps"
  shows "castVote st pollId optionId userId =
            (Inl (Error (str ''You have already voted on this poll.'')), st)
          \<longleftrightarrow> (\<exists>i<length ps. poll_id (ps ! i) = pollId \<and> (\<forall>k<i. poll_id (ps ! k) \<noteq> pollId)
                  \<and> userId \<in> set (votedBy (ps ! i)))"
    (is "?L \<longleftrightarrow> ?R")
proof (cases "findIndex (\<lambda>q. poll_id q = pollId) ps")
  case None
  then have "\<not> ?L"
    using castVote_cases [OF assms, of pollId optionId userId]
    by (simp add: messages_distinct)
  moreover from None have "\<not> ?R"
    by (auto simp: findIndex_None)
  ultimately show ?thesis by blast
next
  case (Some i)
  then have i: "i < length ps" "poll_id (ps ! i) = pollId" "\<forall>k<i. poll_id (ps ! k) \<noteq> pollId"
    by (simp_all add: findIndex_Some)
  have "?L \<longleftrightarrow> userId \<in> set (votedBy (ps ! i))"
    using Some castVote_cases [OF assms, of pollId optionId userId]
    by (simp add: messages_distinct split: option.splits)
  moreover have "?R \<longleftrightarrow> userId \<in> set (votedBy (ps ! i))"
  proof
    assume ?R
    then obtain i' where "i' < length ps" "poll_id (ps ! i') = pollId"
      "\<forall>k<i'. poll_id (ps ! k) \<noteq> pollId" "userId \<in> set (votedBy (ps ! i'))"
      by blast
    moreover from this i have "i' = i"
      using first_index_unique [where P = "\<lambda>q. poll_id q = pollId" and xs = ps and i = i and i' = i']
      by simp
    ultimately show "userId \<in> set (votedBy (ps ! i))" by simp
  next
    assume "userId \<in> set (votedBy (ps ! i))"
    with i show ?R by blast
  qed
  ultimately show ?thesis by blast
qed

lemma castVote_invalid_iff:
  assumes "getPolls st = ps"
  shows "castVote st pollId optionId userId =
            (Inl (Error (str ''Invalid option selected.'')), st)
          \<longleftrightarrow> (\<exists>i<length ps. poll_id (ps ! i) = pollId \<and> (\<forall>k<i. poll_id (ps ! k) \<noteq> pollId)
                  \<and> userId \<notin> set (votedBy (ps ! i))
                  \<and> (\<forall>opt \<in> set (options (ps ! i)). opt_id opt \<noteq> optionId))"
    (is "?L \<longleftrightarrow> ?R")
proof (cases "findIndex (\<lambda>q. poll_id q = pollId) ps")
  case None
  then have "\<not> ?L"
    using castVote_cases [OF assms, of pollId optionId userId]
    by (simp add: messages_distinct)
  moreover from None have "\<not> ?R"
    by (auto simp: findIndex_None)
  ultimately show ?thesis by blast
next
  case (Some i)
  note poll_found = this
  then have i: "i < length ps" "poll_id (ps ! i) = pollId" "\<forall>k<i. poll_id (ps ! k) \<noteq> pollId"
    by (simp_all add: findIndex_Some)
  let ?C = "userId \<notin> set (votedBy (ps ! i))
            \<and> (\<forall>opt \<in> set (options (ps ! i)). opt_id opt \<noteq> optionId)"
  have "?L \<longleftrightarrow> ?C"
  proof (cases "findIndex (\<lambda>x. opt_id x = optionId) (options (ps ! i))")
    case None
    then have "\<forall>opt \<in> set (options (ps ! i)). opt_id opt \<noteq> optionId"
      by (simp add: findIndex_None)
    moreover have "?L \<longleftrightarrow> userId \<notin> set (votedBy (ps ! i))"
      using poll_found None castVote_cases [OF assms, of pollId optionId userId]
      by (simp add: messages_distinct)
    ultimately show ?thesis by blast
  next
    case (Some j)
    then have "\<exists>opt \<in> set (options (ps ! i)). opt_id opt = optionId"
      using nth_mem by (fastforce simp: findIndex_Some)
    moreover have "\<not> ?L"
      using Some poll_found castVote_cases [OF assms, of pollId optionId userId]
      by (simp add: messages_distinct)
    ultimately show ?thesis by blast
  qed
  moreover have "?R \<longleftrightarrow> ?C"
  proof
    assume ?R
    then obtain i' where i': "i' < length ps" "poll_id (ps ! i') = pollId"
      "\<forall>k<i'. poll_id (ps ! k) \<noteq> pollId" and c: "userId \<notin> set (votedBy (ps ! i'))"
      "\<forall>opt \<in> set (options (ps ! i')). opt_id opt \<noteq> optionId"
      by blast
    from i' i have "i' = i"
      using first_index_unique [where P = "\<lambda>q. poll_id q = pollId" and xs = ps and i = i and i' = i']
      by simp
    with c show ?C by simp
  next
    assume ?C
    with i show ?R by blast
  qed
  ultimately show ?thesis by blast
qed

lemma castVote_failure_shape:
  assumes "getPolls st = ps" and "castVote st pollId optionId userId = (Inl e, st')"
  shows "st' = st \<and>
            (e = Error (str ''Poll not found. It may have been deleted.'')
             \<or> e = Error (str ''You have already voted on this poll.'')
             \<or> e = Error (str ''Invalid option selected.''))"
  using assms(2) castVote_cases [OF assms(1), of pollId optionId userId]
  by (auto split: option.splits if_splits)

text \<open>The scenario of the seed data: \<open>user-42\<close> votes for Vue in \<open>poll-1\<close>.\<close>

lemma castVote_seeded:
  "castVote (init emptyStorage) (str ''poll-1'') (str ''opt-1-2'') (str ''user-42'') =
     (Inr \<lparr>poll_id = str ''poll-1'',
           question = str ''What is your favorite frontend framework?'',
           options =
             [\<lparr>opt_id = str ''opt-1-1'', opt_text = str ''React'', votes = 15\<rparr>,
              \<lparr>opt_id = str ''opt-1-2'', opt_text = str ''Vue'', votes = 9\<rparr>,
              \<lparr>opt_id = str ''opt-1-3'', opt_text = str ''Svelte'', votes = 12\<rparr>,
              \<lparr>opt_id = str ''opt-1-4'', opt_text = str ''Angular'', votes = 3\<rparr>],
           createdBy = str ''user-1'',
           votedBy = [str ''user-42'']\<rparr>,
      (init emptyStorage)\<lparr>polly_polls := Some (initialPolls[0 :=
         \<lparr>poll_id = str ''poll-1'',
           question = str ''What is your favorite frontend framework?'',
           options =
             [\<lparr>opt_id = str ''opt-1-1'', opt_text = str ''React'', votes = 15\<rparr>,
              \<lparr>opt_id = str ''opt-1-2'', opt_text = str ''Vue'', votes = 9\<rparr>,
              \<lparr>opt_id = str ''opt-1-3'', opt_text = str ''Svelte'', votes = 12\<rparr>,
              \<lparr>opt_id = str ''opt-1-4'', opt_text = str ''Angular'', votes = 3\<rparr>],
           createdBy = str ''user-1'',
           votedBy = [str ''user-42'']\<rparr>])\<rparr>)"
  by (simp add: castVote_def getPolls_seeded initialPolls_def str_def Let_def)

subsection \<open>Vote totals\<close>

lemma foldl_votes: "foldl (\<lambda>sum option. sum + votes option) a xs = a + sum_list (map votes xs)"
  by (induction xs arbitrary: a) simp_all

lemma totalVotes_sum_list: "totalVotes poll = sum_list (map votes (options poll))"
  by (simp add: totalVotes_def foldl_votes)

lemma sum_votes_increment:
  assumes "j < length xs"
  shows "sum_list (map votes (xs[j := (xs ! j)\<lparr>votes := Suc (votes (xs ! j))\<rparr>]))
           = Suc (sum_list (map votes xs))"
  using assms
proof (induction xs arbitrary: j)
  case Nil
  then show ?case by simp
next
  case (Cons x xs)
  then show ?case by (cases j) simp_all
qed

lemma createPoll_surplus:
  "map surplus (getPolls (snd (createPoll st now nowAt q opts userId))) = map surplus (getPolls st)
   \<or> map surplus (getPolls (snd (createPoll st now nowAt q opts userId))) = map surplus (getPolls st) @ [0]"
  by (auto simp: createPoll_cases Let_def getPolls_def surplus_def totalVotes_sum_list)

lemma castVote_surplus:
  "map surplus (getPolls (snd (castVote st pollId optionId userId))) = map surplus (getPolls st)"
proof -
  note eq = castVote_cases [OF refl, of st pollId optionId userId]
  show ?thesis
  proof (cases "findIndex (\<lambda>q. poll_id q = pollId) (getPolls st)")
    case None
    with eq show ?thesis by simp
  next
    case (Some i)
    note poll_found = this
    show ?thesis
    proof (cases "findIndex (\<lambda>x. opt_id x = optionId) (options (getPolls st ! i))")
      case None
      with eq poll_found show ?thesis by simp
    next
      case (Some j)
      then have j: "j < length (options (getPolls st ! i))"
        by (simp add: findIndex_Some)
      from poll_found have i: "i < length (getPolls st)"
        by (simp add: findIndex_Some)
      let ?p = "getPolls st ! i"
      let ?p' = "?p\<lparr>options := (options ?p)[j := (options ?p ! j)\<lparr>votes := votes (options ?p ! j) + 1\<rparr>],
                   votedBy := votedBy ?p @ [userId]\<rparr>"
      have s: "surplus ?p' = surplus ?p"
        using j by (simp add: surplus_def totalVotes_sum_list sum_votes_increment)
      have "map surplus ((getPolls st)[i := ?p']) = (map surplus (getPolls st))[i := surplus ?p]"
        by (simp only: map_update s)
      also have "\<dots> = (map surplus (getPolls st))[i := map surplus (getPolls st) ! i]"
        using i by (simp only: nth_map)
      also have "\<dots> = map surplus (getPolls st)"
        by (rule list_update_id)
      finally have "map surplus ((getPolls st)[i := ?p']) = map surplus (getPolls st)" .
      with eq poll_found Some show ?thesis
        by (simp add: getPolls_def)
    qed
  qed
qed

text \<open>
  The surplus of every stored poll is fixed when the poll enters the collection: 38 and 43
  for the two seed polls, 0 for a poll that \<open>createPoll\<close> appends.
\<close>

lemma reachable_surplus:
  assumes "reachable st"
  shows "map surplus (getPolls st) = 38 # 43 # replicate (length (getPolls st) - 2) 0"
  using assms
proof (induction rule: reachable.induct)
  case loaded
  show ?case
    by (simp add: init_def emptyStorage_def getPolls_def initialPolls_def surplus_def totalVotes_def)
next
  case (reloaded st)
  then have "getPolls st \<noteq> []" by auto
  then have "init st = st" by (rule getPolls_init)
  with reloaded show ?case by simp
next
  case (signedIn st now uname)
  then show ?case by (simp add: getPolls_signIn)
next
  case (signedOut st)
  then show ?case by (simp add: getPolls_signOut)
next
  case (created st now nowAt q opts userId)
  let ?st' = "snd (createPoll st now nowAt q opts userId)"
  from created.IH have len: "2 \<le> length (getPolls st)"
    by (metis length_map length_Cons length_replicate Suc_le_mono le0 numeral_2_eq_2 Suc_1 One_nat_def)
  from createPoll_surplus [of st now nowAt q opts userId] show ?case
  proof
    assume a: "map surplus (getPolls ?st') = map surplus (getPolls st)"
    then have "length (getPolls ?st') = length (getPolls st)"
      by (metis length_map)
    with a created.IH show ?thesis by simp
  next
    assume a: "map surplus (getPolls ?st') = map surplus (getPolls st) @ [0]"
    then have l: "length (getPolls ?st') = Suc (length (getPolls st))"
      by (metis length_map length_append_singleton)
    from len obtain k where k: "length (getPolls st) = Suc (Suc k)"
      by (metis Suc_le_D numeral_2_eq_2 Suc_le_mono)
    have "replicate k (0::int) @ [0] = replicate (Suc k) 0"
      by (simp add: replicate_append_same)
    with a l k created.IH show ?thesis by simp
  qed
next
  case (voted st pollId optionId userId)
  have "length (getPolls (snd (castVote st pollId optionId userId))) = length (getPolls st)"
    using castVote_surplus [of st pollId optionId userId] by (metis length_map)
  with voted show ?case by (simp add: castVote_surplus)
qed

subsection \<open>What castVote changes\<close>

lemma castVote_step:
  "getPolls (snd (castVote st pollId optionId userId)) = getPolls st
   \<or> (\<exists>i p'. i < length (getPolls st)
         \<and> poll_id (getPolls st ! i) = pollId
         \<and> (\<forall>k<i. poll_id (getPolls st ! k) \<noteq> pollId)
         \<and> poll_id p' = pollId
         \<and> map opt_id (options p') = map opt_id (options (getPolls st ! i))
         \<and> getPolls (snd (castVote st pollId optionId userId)) = (getPolls st)[i := p'])"
proof -
  note eq = castVote_cases [OF refl, of st pollId optionId userId]
  show ?thesis
  proof (cases "findIndex (\<lambda>q. poll_id q = pollId) (getPolls st)")
    case None
    with eq show ?thesis by simp
  next
    case (Some i)
    note poll_found = this
    then have i: "i < length (getPolls st)" "poll_id (getPolls st ! i) = pollId"
      "\<forall>k<i. poll_id (getPolls st ! k) \<noteq> pollId"
      by (simp_all add: findIndex_Some)
    show ?thesis
    proof (cases "findIndex (\<lambda>x. opt_id x = optionId) (options (getPolls st ! i))")
      case None
      with eq poll_found show ?thesis by simp
    next
      case (Some j)
      let ?p = "getPolls st ! i"
      let ?p' = "?p\<lparr>options := (options ?p)[j := (options ?p ! j)\<lparr>votes := votes (options ?p ! j) + 1\<rparr>],
                   votedBy := votedBy ?p @ [userId]\<rparr>"
      show ?thesis
      proof (cases "userId \<in> set (votedBy ?p)")
        case True
        with eq poll_found show ?thesis by simp
      next
        case False
        with eq poll_found Some
        have g: "getPolls (snd (castVote st pollId optionId userId)) = (getPolls st)[i := ?p']"
          by (simp add: getPolls_stored)
        from Some have j: "j < length (options ?p)"
          by (simp add: findIndex_Some)
        have "(map opt_id (options ?p))[j := map opt_id (options ?p) ! j] = map opt_id (options ?p)"
          by (rule list_update_id)
        with j have ids: "map opt_id (options ?p') = map opt_id (options ?p)"
          by (simp add: map_update)
        have "poll_id ?p' = pollId" using i(2) by simp
        with i g ids show ?thesis by blast
      qed
    qed
  qed
qed

text \<open>
  Only the first poll with a given id ever receives a vote, so in every storage the service
  has produced, a poll with a recorded voter is the first with its id.
\<close>

lemma reachable_voted_first:
  assumes "reachable st"
  shows "\<forall>i<length (getPolls st). votedBy (getPolls st ! i) \<noteq> [] \<longrightarrow>
           (\<forall>k<i. poll_id (getPolls st ! k) \<noteq> poll_id (getPolls st ! i))"
  using assms
proof (induction rule: reachable.induct)
  case loaded
  have "votedBy (initialPolls ! i) = []" if "i < length initialPolls" for i
  proof -
    have "\<forall>p \<in> set initialPolls. votedBy p = []" by (simp add: initialPolls_def)
    with that show ?thesis using nth_mem by blast
  qed
  then show ?case by (simp add: getPolls_seeded)
next
  case (reloaded st)
  show ?case
  proof (cases "getPolls st = []")
    case True
    then have "polly_polls st = None \<or> polly_polls st = Some []"
      by (auto simp: getPolls_def split: option.splits)
    then show ?thesis
    proof
      assume "polly_polls st = None"
      then have "getPolls (init st) = initialPolls"
        by (simp add: init_def getPolls_def)
      moreover have "votedBy (initialPolls ! i) = []" if "i < length initialPolls" for i
      proof -
        have "\<forall>p \<in> set initialPolls. votedBy p = []" by (simp add: initialPolls_def)
        with that show ?thesis using nth_mem by blast
      qed
      ultimately show ?thesis by simp
    next
      assume "polly_polls st = Some []"
      then show ?thesis by (simp add: init_def getPolls_def)
    qed
  next
    case False
    then have "init st = st" by (rule getPolls_init)
    with reloaded show ?thesis by simp
  qed
next
  case (signedIn st now uname)
  then show ?case by (simp add: getPolls_signIn)
next
  case (signedOut st)
  then show ?case by (simp add: getPolls_signOut)
next
  case (created st now nowAt q opts userId)
  let ?ps = "getPolls st"
  let ?st' = "snd (createPoll st now nowAt q opts userId)"
  have "getPolls ?st' = ?ps \<or> (\<exists>p. votedBy p = [] \<and> getPolls ?st' = ?ps @ [p])"
    by (simp add: createPoll_cases Let_def getPolls_stored)
  then show ?case
  proof (elim disjE exE conjE)
    assume "getPolls ?st' = ?ps"
    with created.IH show ?thesis by simp
  next
    fix p assume p: "votedBy p = []" and g: "getPolls ?st' = ?ps @ [p]"
    show ?thesis
    proof (intro allI impI)
      fix i k
      assume i: "i < length (getPolls ?st')" and v: "votedBy (getPolls ?st' ! i) \<noteq> []" and k: "k < i"
      from i v p g have "i < length ?ps"
        by (cases "i = length ?ps") auto
      with g k v created.IH show "poll_id (getPolls ?st' ! k) \<noteq> poll_id (getPolls ?st' ! i)"
        by (simp add: nth_append)
    qed
  qed
next
  case (voted st pollId optionId userId)
  let ?ps = "getPolls st"
  let ?st' = "snd (castVote st pollId optionId userId)"
  from castVote_step [of st pollId optionId userId] show ?case
  proof (elim disjE exE conjE)
    assume "getPolls ?st' = ?ps"
    with voted.IH show ?thesis by simp
  next
    fix i0 p'
    assume i0: "i0 < length ?ps" "poll_id (?ps ! i0) = pollId" "\<forall>k<i0. poll_id (?ps ! k) \<noteq> pollId"
      and p': "poll_id p' = pollId" and g: "getPolls ?st' = ?ps[i0 := p']"
    have ids: "poll_id (getPolls ?st' ! k) = poll_id (?ps ! k)" if "k < length ?ps" for k
      using that g i0(2) p' by (cases "k = i0") simp_all
    show ?thesis
    proof (intro allI impI)
      fix i k
      assume i: "i < length (getPolls ?st')" and v: "votedBy (getPolls ?st' ! i) \<noteq> []" and k: "k < i"
      from i g have il: "i < length ?ps" by simp
      with k have kl: "k < length ?ps" by simp
      show "poll_id (getPolls ?st' ! k) \<noteq> poll_id (getPolls ?st' ! i)"
      proof (cases "i = i0")
        case True
        with i0 k ids [OF il] ids [OF kl] show ?thesis by simp
      next
        case False
        with g v have "votedBy (?ps ! i) \<noteq> []" by simp
        with voted.IH il k have "poll_id (?ps ! k) \<noteq> poll_id (?ps ! i)" by blast
        with ids [OF il] ids [OF kl] show ?thesis by simp
      qed
    qed
  qed
qed

subsection \<open>Option ids\<close>













subsection \<open>Vote counts stay small\<close>

text \<open>
  In a storage the service has produced, the vote count of an option exceeds the number of
  recorded voters of its poll by 43 at most. A count of \<open>2^53\<close>, from which on the source's
  \<open>votes += 1\<close> no longer adds one, would take more than \<open>2^53 - 44\<close> recorded voters.
\<close>

lemma reachable_votes_bound:
  assumes "reachable st" and "p \<in> set (getPolls st)" and "opt \<in> set (options p)"
  shows "votes opt \<le> length (votedBy p) + 43"
proof -
  let ?ps = "getPolls st"
  have m: "map surplus ?ps = 38 # 43 # replicate (length ?ps - 2) 0"
    using assms(1) by (rule reachable_surplus)
  have "surplus p \<in> set (map surplus ?ps)"
    using assms(2) by simp
  with m have "surplus p \<in> set (38 # 43 # replicate (length ?ps - 2) 0)"
    by simp
  then have "surplus p \<le> 43" by auto
  then have t: "totalVotes p \<le> length (votedBy p) + 43"
    by (simp add: surplus_def)
  have "votes opt \<in> set (map votes (options p))"
    using assms(3) by simp
  then have "votes opt \<le> sum_list (map votes (options p))"
    by (simp add: member_le_sum_list)
  with t show ?thesis by (simp add: totalVotes_sum_list)
qed

subsection \<open>Two polls created at the same clock value\<close>



section \<open>Vote totals and recorded voters\<close>

text \<open>
  C1, as stated, fails at the first observation point. Right after seeding, \<open>poll-1\<close> holds
  38 votes (15 + 8 + 12 + 3) and nobody in \<open>votedBy\<close>.
\<close>

theorem seed_votes_without_voters:
  "reachable (init emptyStorage)
   \<and> poll_id (getPolls (init emptyStorage) ! 0) = str ''poll-1''
   \<and> totalVotes (getPolls (init emptyStorage) ! 0) = 38
   \<and> length (votedBy (getPolls (init emptyStorage) ! 0)) = 0"
  by (simp add: reachable.loaded getPolls_seeded initialPolls_def totalVotes_def)

text \<open>
  C1, amended. At every observation point the collection starts with the two seed polls,
  whose vote totals stay exactly 38 and 43 above the lengths of their \<open>votedBy\<close> lists; for
  every other stored poll (the polls that \<open>createPoll\<close> appended, at index 2 and beyond) the
  sum of the \<open>votes\<close> fields of its options equals the length of its \<open>votedBy\<close> list.
\<close>

theorem vote_surplus_constant:
  assumes "reachable st"
  shows "2 \<le> length (getPolls st)
       \<and> totalVotes (getPolls st ! 0) = length (votedBy (getPolls st ! 0)) + 38
       \<and> totalVotes (getPolls st ! 1) = length (votedBy (getPolls st ! 1)) + 43
       \<and> (\<forall>i<length (getPolls st). 2 \<le> i \<longrightarrow>
             totalVotes (getPolls st ! i) = length (votedBy (getPolls st ! i)))"
proof -
  let ?ps = "getPolls st"
  have m: "map surplus ?ps = 38 # 43 # replicate (length ?ps - 2) 0"
    using assms by (rule reachable_surplus)
  then have len: "2 \<le> length ?ps"
    by (metis length_map length_Cons length_replicate Suc_le_mono le0 numeral_2_eq_2 Suc_1 One_nat_def)
  have nth: "surplus (?ps ! i) = (38 # 43 # replicate (length ?ps - 2) 0) ! i" if "i < length ?ps" for i
    using that m by (metis nth_map)
  from len have l0: "0 < length ?ps" and l1: "1 < length ?ps" by linarith+
  have "surplus (?ps ! 0) = 38" using nth [OF l0] by simp
  then have p0: "totalVotes (?ps ! 0) = length (votedBy (?ps ! 0)) + 38"
    by (simp add: surplus_def)
  have "surplus (?ps ! 1) = 43" using nth [OF l1] by simp
  then have p1: "totalVotes (?ps ! 1) = length (votedBy (?ps ! 1)) + 43"
    by (simp add: surplus_def)
  have rest: "totalVotes (?ps ! i) = length (votedBy (?ps ! i))"
    if lt: "i < length ?ps" and ge: "2 \<le> i" for i
  proof -
    obtain k where k: "i = Suc (Suc k)" using ge
      by (metis Suc_le_D numeral_2_eq_2 Suc_le_mono)
    with lt have "k < length ?ps - 2" by simp
    with nth [OF lt] k have "surplus (?ps ! i) = 0" by simp
    then show ?thesis by (simp add: surplus_def)
  qed
  from len p0 p1 rest show ?thesis by blast
qed

text \<open>The amended C1 after a Lunch poll is created on the seed data: the new poll is at index 2.\<close>

theorem vote_surplus_constant_witness:
  "reachable (snd (createPoll (init emptyStorage) 1730000000000 (steadyClock 1730000000000)
       (str ''Lunch?'') [str ''Pizza'', str ''Tacos''] (str ''user-7'')))
   \<and> totalVotes (getPolls (snd (createPoll (init emptyStorage) 1730000000000 (steadyClock 1730000000000)
       (str ''Lunch?'') [str ''Pizza'', str ''Tacos''] (str ''user-7''))) ! 2)
     = length (votedBy (getPolls (snd (createPoll (init emptyStorage) 1730000000000 (steadyClock 1730000000000)
       (str ''Lunch?'') [str ''Pizza'', str ''Tacos''] (str ''user-7''))) ! 2))"
proof -
  let ?S = "snd (createPoll (init emptyStorage) 1730000000000 (steadyClock 1730000000000)
       (str ''Lunch?'') [str ''Pizza'', str ''Tacos''] (str ''user-7''))"
  have r: "reachable ?S"
    by (intro reachable.created reachable.loaded)
  have "length (getPolls ?S) = 3"
    by (simp add: createPoll_cases string_evals getPolls_seeded getPolls_stored initialPolls_def Let_def)
  then have l: "2 < length (getPolls ?S)" by simp
  from vote_surplus_constant [OF r] l
  have "totalVotes (getPolls ?S ! 2) = length (votedBy (getPolls ?S ! 2))"
    by simp
  with r show ?thesis by (rule conjI)
qed

section \<open>Creating a poll\<close>

text \<open>
  C2, as stated, fails on its own scenario. Trimming the four option strings and discarding
  the empty ones leaves Pizza and Tacos, yet \<open>createPoll\<close> rejects the input: it tests
  \<open>options.some(opt => !opt.trim())\<close> on the strings as given and discards none of them.
\<close>

theorem createPoll_rejects_blank_option:
  "removeAll [] (map trim [str ''Pizza'', str [], str ''Tacos'', str ''  ''])
     = [str ''Pizza'', str ''Tacos'']
   \<and> trim (str ''Lunch?'') = str ''Lunch?''
   \<and> createPoll (init emptyStorage) 1730000000000 (steadyClock 1730000000000)
        (str ''Lunch?'') [str ''Pizza'', str [], str ''Tacos'', str ''  ''] (str ''user-7'')
      = (Inl (Error (str ''A poll requires a question and at least two non-empty options.'')),
         init emptyStorage)"
  by (simp add: createPoll_def string_evals)

text \<open>
  C2, amended. \<open>createPoll\<close> validates the option strings as given: it succeeds exactly when
  the question is non-empty after trimming, at least two option strings are passed and every
  one of them is non-empty after trimming. An input with an empty or whitespace-only option
  string fails with the validation error and leaves storage unchanged.
\<close>

theorem createPoll_validates_as_given:
  "((\<exists>p st'. createPoll st now nowAt q opts userId = (Inr p, st'))
      \<longleftrightarrow> trim q \<noteq> [] \<and> 2 \<le> length opts \<and> (\<forall>opt \<in> set opts. trim opt \<noteq> []))
   \<and> ((\<exists>opt \<in> set opts. trim opt = []) \<longrightarrow>
        createPoll st now nowAt q opts userId =
          (Inl (Error (str ''A poll requires a question and at least two non-empty options.'')), st))"
  by (auto simp: createPoll_cases Let_def)

text \<open>
  The amended C2 on the scenario without the blank strings:
  \<open>createPoll('Lunch?', ['Pizza', 'Tacos'], 'user-7')\<close> succeeds, with exactly the two
  options Pizza and Tacos at zero votes.
\<close>

theorem createPoll_validates_as_given_witness:
  "(\<exists>p st'. createPoll (init emptyStorage) 1730000000000 (steadyClock 1730000000000)
        (str ''Lunch?'') [str ''Pizza'', str ''Tacos''] (str ''user-7'') = (Inr p, st'))
   \<and> fst (createPoll (init emptyStorage) 1730000000000 (steadyClock 1730000000000)
        (str ''Lunch?'') [str ''Pizza'', str ''Tacos''] (str ''user-7''))
      = Inr \<lparr>poll_id = str ''poll-1730000000000'', question = str ''Lunch?'',
             options = [\<lparr>opt_id = str ''opt-1730000000000-0'', opt_text = str ''Pizza'', votes = 0\<rparr>,
                        \<lparr>opt_id = str ''opt-1730000000000-1'', opt_text = str ''Tacos'', votes = 0\<rparr>],
             createdBy = str ''user-7'', votedBy = []\<rparr>"
proof -
  have h: "trim (str ''Lunch?'') \<noteq> [] \<and> 2 \<le> length [str ''Pizza'', str ''Tacos'']
           \<and> (\<forall>opt \<in> set [str ''Pizza'', str ''Tacos'']. trim opt \<noteq> [])"
    by (simp add: string_evals)
  from createPoll_validates_as_given [of "init emptyStorage" 1730000000000
      "steadyClock 1730000000000" "str ''Lunch?''" "[str ''Pizza'', str ''Tacos'']" "str ''user-7''"] h
  have "\<exists>p st'. createPoll (init emptyStorage) 1730000000000 (steadyClock 1730000000000)
        (str ''Lunch?'') [str ''Pizza'', str ''Tacos''] (str ''user-7'') = (Inr p, st')"
    by blast
  moreover have "fst (createPoll (init emptyStorage) 1730000000000 (steadyClock 1730000000000)
        (str ''Lunch?'') [str ''Pizza'', str ''Tacos''] (str ''user-7''))
      = Inr \<lparr>poll_id = str ''poll-1730000000000'', question = str ''Lunch?'',
             options = [\<lparr>opt_id = str ''opt-1730000000000-0'', opt_text = str ''Pizza'', votes = 0\<rparr>,
                        \<lparr>opt_id = str ''opt-1730000000000-1'', opt_text = str ''Tacos'', votes = 0\<rparr>],
             createdBy = str ''user-7'', votedBy = []\<rparr>"
    by (simp add: createPoll_def string_evals showInt_def showNat.simps steadyClock_def Let_def)
  ultimately show ?thesis by (rule conjI)
qed

text \<open>
  C6, as stated, fails: \<open>createPoll\<close> stores \<open>text: opt\<close>, the option string as passed. The
  option \<open>' Pizza'\<close> keeps its leading blank, and differs from its trimmed form.
\<close>

theorem createPoll_text_untrimmed:
  "fst (createPoll (init emptyStorage) 1730000000000 (steadyClock 1730000000000)
        (str ''Lunch?'') [str '' Pizza'', str ''Tacos  ''] (str ''user-7''))
      = Inr \<lparr>poll_id = str ''poll-1730000000000'', question = str ''Lunch?'',
             options = [\<lparr>opt_id = str ''opt-1730000000000-0'', opt_text = str '' Pizza'', votes = 0\<rparr>,
                        \<lparr>opt_id = str ''opt-1730000000000-1'', opt_text = str ''Tacos  '', votes = 0\<rparr>],
             createdBy = str ''user-7'', votedBy = []\<rparr>
   \<and> trim (str '' Pizza'') = str ''Pizza'' \<and> str '' Pizza'' \<noteq> str ''Pizza''
   \<and> isWhiteSpace (hd (str '' Pizza''))"
  by (simp add: createPoll_def string_evals showInt_def showNat.simps steadyClock_def Let_def)

text \<open>
  C6, amended. For every input that \<open>createPoll\<close> accepts, the returned poll has one option
  per input option string, in the same order, and each option carries as its text the
  corresponding input string exactly as passed: non-empty after trimming, with any leading
  or trailing whitespace kept.
\<close>

theorem createPoll_text_verbatim:
  assumes "trim q \<noteq> []" and "2 \<le> length opts" and "\<forall>opt \<in> set opts. trim opt \<noteq> []"
  shows "\<exists>p. fst (createPoll st now nowAt q opts userId) = Inr p
             \<and> map opt_text (options p) = opts
             \<and> (\<forall>opt \<in> set (options p). trim (opt_text opt) \<noteq> [])"
proof -
  let ?p = "\<lparr>poll_id = str ''poll-'' @ showInt now,
               question = q,
               options = map (\<lambda>(index, opt).
                               \<lparr>opt_id = str ''opt-'' @ showInt (nowAt index) @ str ''-'' @ showNat index,
                                opt_text = opt,
                                votes = 0\<rparr>)
                             (enumerate 0 opts),
               createdBy = userId,
               votedBy = []\<rparr>"
  have "fst (createPoll st now nowAt q opts userId) = Inr ?p"
    using assms by (simp add: createPoll_cases Let_def)
  moreover have t: "map opt_text (options ?p) = opts"
    using new_options_text [of "\<lambda>index. str ''opt-'' @ showInt (nowAt index) @ str ''-'' @ showNat index" 0 opts]
    by simp
  moreover have "\<forall>opt \<in> set (options ?p). trim (opt_text opt) \<noteq> []"
  proof
    fix opt assume "opt \<in> set (options ?p)"
    then have "opt_text opt \<in> opt_text ` set (options ?p)" by (rule imageI)
    then have "opt_text opt \<in> set (map opt_text (options ?p))" by (simp only: set_map)
    with t have "opt_text opt \<in> set opts" by simp
    with assms(3) show "trim (opt_text opt) \<noteq> []" by blast
  qed
  ultimately show ?thesis by blast
qed

theorem createPoll_text_verbatim_witness:
  "\<exists>p. fst (createPoll (init emptyStorage) 1730000000000 (steadyClock 1730000000000)
        (str ''Lunch?'') [str '' Pizza'', str ''Tacos  ''] (str ''user-7'')) = Inr p
       \<and> map opt_text (options p) = [str '' Pizza'', str ''Tacos  '']"
proof -
  have h1: "trim (str ''Lunch?'') \<noteq> []" by (simp add: string_evals)
  have h2: "2 \<le> length [str '' Pizza'', str ''Tacos  '']" by simp
  have h3: "\<forall>opt \<in> set [str '' Pizza'', str ''Tacos  '']. trim opt \<noteq> []"
    by (simp add: string_evals)
  from createPoll_text_verbatim [OF h1 h2 h3, of "init emptyStorage" 1730000000000
      "steadyClock 1730000000000" "str ''user-7''"]
  obtain p where a: "fst (createPoll (init emptyStorage) 1730000000000 (steadyClock 1730000000000)
        (str ''Lunch?'') [str '' Pizza'', str ''Tacos  ''] (str ''user-7'')) = Inr p"
     and b: "map opt_text (options p) = [str '' Pizza'', str ''Tacos  '']"
    by auto
  show ?thesis
    by (rule exI [of _ p]) (simp only: a b)
qed

text \<open>
  C9, as stated, fails where "valid" is the spec's notion, at least two option strings left
  after trimming each and discarding the empty ones. The input of the Lunch scenario is
  valid in that sense, Pizza and Tacos remain, yet \<open>createPoll\<close> returns no poll and
  \<open>getPolls\<close> afterwards is what it was before: nothing is appended.
\<close>

theorem createPoll_blank_option_not_appended:
  "removeAll [] (map trim [str ''Pizza'', str [], str ''Tacos'', str ''  ''])
     = [str ''Pizza'', str ''Tacos'']
   \<and> trim (str ''Lunch?'') = str ''Lunch?''
   \<and> fst (createPoll (init emptyStorage) 1730000000000 (steadyClock 1730000000000)
        (str ''Lunch?'') [str ''Pizza'', str [], str ''Tacos'', str ''  ''] (str ''user-7''))
      = Inl (Error (str ''A poll requires a question and at least two non-empty options.''))
   \<and> getPolls (snd (createPoll (init emptyStorage) 1730000000000 (steadyClock 1730000000000)
        (str ''Lunch?'') [str ''Pizza'', str [], str ''Tacos'', str ''  ''] (str ''user-7'')))
      = getPolls (init emptyStorage)"
  by (simp add: createPoll_def string_evals)

text \<open>
  C9, amended. For every input that \<open>createPoll\<close> accepts, which is a question non-empty
  after trimming and at least two option strings, every one of them non-empty after
  trimming, the call succeeds, the returned poll has every option at zero votes and an empty
  \<open>votedBy\<close>, and it is stored at the end of the collection: \<open>getPolls\<close> afterwards is the
  previous sequence, unchanged, followed by the new poll.
\<close>

theorem createPoll_appends:
  assumes "trim q \<noteq> []" and "2 \<le> length opts" and "\<forall>opt \<in> set opts. trim opt \<noteq> []"
  shows "\<exists>p. createPoll st now nowAt q opts userId =
                (Inr p, st\<lparr>polly_polls := Some (getPolls st @ [p])\<rparr>)
             \<and> length (options p) = length opts
             \<and> (\<forall>opt \<in> set (options p). votes opt = 0)
             \<and> votedBy p = []
             \<and> getPolls (snd (createPoll st now nowAt q opts userId)) = getPolls st @ [p]"
  using assms by (auto simp: createPoll_cases Let_def getPolls_def)

theorem createPoll_appends_witness:
  "getPolls (snd (createPoll (init emptyStorage) 1730000000000 (steadyClock 1730000000000)
       (str ''Lunch?'') [str ''Pizza'', str ''Tacos''] (str ''user-7'')))
   = initialPolls @
     [\<lparr>poll_id = str ''poll-1730000000000'', question = str ''Lunch?'',
       options = [\<lparr>opt_id = str ''opt-1730000000000-0'', opt_text = str ''Pizza'', votes = 0\<rparr>,
                  \<lparr>opt_id = str ''opt-1730000000000-1'', opt_text = str ''Tacos'', votes = 0\<rparr>],
       createdBy = str ''user-7'', votedBy = []\<rparr>]"
proof -
  have h1: "trim (str ''Lunch?'') \<noteq> []" by (simp add: string_evals)
  have h2: "2 \<le> length [str ''Pizza'', str ''Tacos'']" by simp
  have h3: "\<forall>opt \<in> set [str ''Pizza'', str ''Tacos'']. trim opt \<noteq> []"
    by (simp add: string_evals)
  from createPoll_appends [OF h1 h2 h3, of "init emptyStorage" 1730000000000
      "steadyClock 1730000000000" "str ''user-7''"]
  obtain p where p: "createPoll (init emptyStorage) 1730000000000 (steadyClock 1730000000000)
       (str ''Lunch?'') [str ''Pizza'', str ''Tacos''] (str ''user-7'') =
         (Inr p, (init emptyStorage)\<lparr>polly_polls := Some (getPolls (init emptyStorage) @ [p])\<rparr>)"
    and a: "getPolls (snd (createPoll (init emptyStorage) 1730000000000 (steadyClock 1730000000000)
       (str ''Lunch?'') [str ''Pizza'', str ''Tacos''] (str ''user-7'')))
         = getPolls (init emptyStorage) @ [p]"
    by blast
  have "fst (createPoll (init emptyStorage) 1730000000000 (steadyClock 1730000000000)
       (str ''Lunch?'') [str ''Pizza'', str ''Tacos''] (str ''user-7'')) =
      Inr \<lparr>poll_id = str ''poll-1730000000000'', question = str ''Lunch?'',
       options = [\<lparr>opt_id = str ''opt-1730000000000-0'', opt_text = str ''Pizza'', votes = 0\<rparr>,
                  \<lparr>opt_id = str ''opt-1730000000000-1'', opt_text = str ''Tacos'', votes = 0\<rparr>],
       createdBy = str ''user-7'', votedBy = []\<rparr>"
    by (simp add: createPoll_def string_evals showInt_def showNat.simps steadyClock_def Let_def)
  with p have "p = \<lparr>poll_id = str ''poll-1730000000000'', question = str ''Lunch?'',
       options = [\<lparr>opt_id = str ''opt-1730000000000-0'', opt_text = str ''Pizza'', votes = 0\<rparr>,
                  \<lparr>opt_id = str ''opt-1730000000000-1'', opt_text = str ''Tacos'', votes = 0\<rparr>],
       createdBy = str ''user-7'', votedBy = []\<rparr>"
    by simp
  with a getPolls_seeded show ?thesis by simp
qed

section \<open>Casting a vote\<close>




text \<open>
  C4. \<open>castVote\<close> tests vote membership before option validity. In every storage the service
  has produced, for every stored poll and every \<open>userId\<close> already in its \<open>votedBy\<close>, the call
  fails with the "already voted" error whatever \<open>optionId\<close> is, a bogus one included, and
  storage is unchanged. (A poll with a recorded voter is the first stored poll with its id:
  \<open>reachable_voted_first\<close>.) The same holds in any other storage for a poll that is the
  first with its id.
\<close>

theorem castVote_already_voted:
  assumes "i < length (getPolls st)"
    and "userId \<in> set (votedBy (getPolls st ! i))"
    and "reachable st \<or> (\<forall>k<i. poll_id (getPolls st ! k) \<noteq> poll_id (getPolls st ! i))"
  shows "castVote st (poll_id (getPolls st ! i)) optionId userId =
           (Inl (Error (str ''You have already voted on this poll.'')), st)"
proof -
  from assms(2) have voted: "votedBy (getPolls st ! i) \<noteq> []" by auto
  from assms(3) have first: "\<forall>k<i. poll_id (getPolls st ! k) \<noteq> poll_id (getPolls st ! i)"
  proof
    assume "reachable st"
    from reachable_voted_first [OF this] assms(1) voted show ?thesis by blast
  qed
  with assms(1)
  have "findIndex (\<lambda>q. poll_id q = poll_id (getPolls st ! i)) (getPolls st) = Some i"
    by (simp add: findIndex_Some)
  with assms(2) show ?thesis by (simp add: castVote_def Let_def)
qed

text \<open>
  C4 on the seed data: after \<open>user-42\<close> has voted in \<open>poll-1\<close>, a second call by
  \<open>user-42\<close> that names the option \<open>bogus\<close> gets "already voted", not "invalid option".
\<close>

theorem castVote_already_voted_witness:
  "castVote (snd (castVote (init emptyStorage) (str ''poll-1'') (str ''opt-1-2'') (str ''user-42'')))
     (str ''poll-1'') (str ''bogus'') (str ''user-42'')
   = (Inl (Error (str ''You have already voted on this poll.'')),
      snd (castVote (init emptyStorage) (str ''poll-1'') (str ''opt-1-2'') (str ''user-42'')))"
proof -
  let ?S = "snd (castVote (init emptyStorage) (str ''poll-1'') (str ''opt-1-2'') (str ''user-42''))"
  have g: "getPolls ?S = initialPolls[0 :=
         \<lparr>poll_id = str ''poll-1'',
           question = str ''What is your favorite frontend framework?'',
           options =
             [\<lparr>opt_id = str ''opt-1-1'', opt_text = str ''React'', votes = 15\<rparr>,
              \<lparr>opt_id = str ''opt-1-2'', opt_text = str ''Vue'', votes = 9\<rparr>,
              \<lparr>opt_id = str ''opt-1-3'', opt_text = str ''Svelte'', votes = 12\<rparr>,
              \<lparr>opt_id = str ''opt-1-4'', opt_text = str ''Angular'', votes = 3\<rparr>],
           createdBy = str ''user-1'',
           votedBy = [str ''user-42'']\<rparr>]"
    by (simp only: castVote_seeded snd_conv getPolls_stored)
  have r: "reachable ?S \<or> (\<forall>k<0. poll_id (getPolls ?S ! k) \<noteq> poll_id (getPolls ?S ! 0))"
    by (intro disjI1 reachable.voted reachable.loaded)
  have l: "0 < length (getPolls ?S)"
    by (simp add: g initialPolls_def)
  have m: "str ''user-42'' \<in> set (votedBy (getPolls ?S ! 0))"
    by (simp add: g initialPolls_def)
  have n: "poll_id (getPolls ?S ! 0) = str ''poll-1''"
    by (simp add: g initialPolls_def)
  from castVote_already_voted [OF l m r, of "str ''bogus''"] show ?thesis
    by (simp only: n)
qed

text \<open>
  C5. The failures of \<open>castVote\<close> are exactly three, and each leaves storage unchanged:
  "poll not found" if and only if no stored poll has id \<open>pollId\<close>; "already voted" if and
  only if the poll that \<open>pollId\<close> identifies has \<open>userId\<close> in its \<open>votedBy\<close>; "invalid
  option" if and only if that poll exists, \<open>userId\<close> has not voted in it and none of its
  options has id \<open>optionId\<close>. Every failing call returns one of these three errors together
  with the storage it was given. The source raises all three as \<open>Error\<close>, told apart by
  their messages.
\<close>

theorem castVote_failures:
  assumes "getPolls st = ps"
  shows "(castVote st pollId optionId userId =
            (Inl (Error (str ''Poll not found. It may have been deleted.'')), st)
          \<longleftrightarrow> (\<forall>p \<in> set ps. poll_id p \<noteq> pollId))
       \<and> (castVote st pollId optionId userId =
            (Inl (Error (str ''You have already voted on this poll.'')), st)
          \<longleftrightarrow> (\<exists>i<length ps. poll_id (ps ! i) = pollId \<and> (\<forall>k<i. poll_id (ps ! k) \<noteq> pollId)
                  \<and> userId \<in> set (votedBy (ps ! i))))
       \<and> (castVote st pollId optionId userId =
            (Inl (Error (str ''Invalid option selected.'')), st)
          \<longleftrightarrow> (\<exists>i<length ps. poll_id (ps ! i) = pollId \<and> (\<forall>k<i. poll_id (ps ! k) \<noteq> pollId)
                  \<and> userId \<notin> set (votedBy (ps ! i))
                  \<and> (\<forall>opt \<in> set (options (ps ! i)). opt_id opt \<noteq> optionId)))
       \<and> (\<forall>e st'. castVote st pollId optionId userId = (Inl e, st') \<longrightarrow>
            st' = st \<and>
            (e = Error (str ''Poll not found. It may have been deleted.'')
             \<or> e = Error (str ''You have already voted on this poll.'')
             \<or> e = Error (str ''Invalid option selected.'')))"
proof (intro conjI allI impI)
  show "castVote st pollId optionId userId =
            (Inl (Error (str ''Poll not found. It may have been deleted.'')), st)
          \<longleftrightarrow> (\<forall>p \<in> set ps. poll_id p \<noteq> pollId)"
    by (rule castVote_notFound_iff [OF assms])
  show "castVote st pollId optionId userId =
            (Inl (Error (str ''You have already voted on this poll.'')), st)
          \<longleftrightarrow> (\<exists>i<length ps. poll_id (ps ! i) = pollId \<and> (\<forall>k<i. poll_id (ps ! k) \<noteq> pollId)
                  \<and> userId \<in> set (votedBy (ps ! i)))"
    by (rule castVote_conflict_iff [OF assms])
  show "castVote st pollId optionId userId =
            (Inl (Error (str ''Invalid option selected.'')), st)
          \<longleftrightarrow> (\<exists>i<length ps. poll_id (ps ! i) = pollId \<and> (\<forall>k<i. poll_id (ps ! k) \<noteq> pollId)
                  \<and> userId \<notin> set (votedBy (ps ! i))
                  \<and> (\<forall>opt \<in> set (options (ps ! i)). opt_id opt \<noteq> optionId))"
    by (rule castVote_invalid_iff [OF assms])
next
  fix e st'
  assume f: "castVote st pollId optionId userId = (Inl e, st')"
  from castVote_failure_shape [OF assms f] show "st' = st"
    by (rule conjunct1)
  from castVote_failure_shape [OF assms f]
  show "e = Error (str ''Poll not found. It may have been deleted.'')
             \<or> e = Error (str ''You have already voted on this poll.'')
             \<or> e = Error (str ''Invalid option selected.'')"
    by (rule conjunct2)
qed

text \<open>
  C5 on the seed data: an unknown poll id is "poll not found"; in \<open>poll-1\<close>, an option id
  of \<open>poll-2\<close> is "invalid option". Both calls leave the seeded storage as it was.
\<close>

theorem castVote_failures_witness:
  "castVote (init emptyStorage) (str ''poll-9'') (str ''opt-1-2'') (str ''user-42'')
     = (Inl (Error (str ''Poll not found. It may have been deleted.'')), init emptyStorage)
   \<and> castVote (init emptyStorage) (str ''poll-1'') (str ''opt-2-1'') (str ''user-42'')
     = (Inl (Error (str ''Invalid option selected.'')), init emptyStorage)"
proof -
  have a: "\<forall>p \<in> set initialPolls. poll_id p \<noteq> str ''poll-9''"
    by (simp add: initialPolls_def str_def)
  have b: "\<exists>i<length initialPolls. poll_id (initialPolls ! i) = str ''poll-1''
             \<and> (\<forall>k<i. poll_id (initialPolls ! k) \<noteq> str ''poll-1'')
             \<and> str ''user-42'' \<notin> set (votedBy (initialPolls ! i))
             \<and> (\<forall>opt \<in> set (options (initialPolls ! i)). opt_id opt \<noteq> str ''opt-2-1'')"
    by (rule exI [of _ 0]) (simp add: initialPolls_def str_def)
  from castVote_failures [OF getPolls_seeded, of "str ''poll-9''" "str ''opt-1-2''" "str ''user-42''"] a
  have "castVote (init emptyStorage) (str ''poll-9'') (str ''opt-1-2'') (str ''user-42'')
     = (Inl (Error (str ''Poll not found. It may have been deleted.'')), init emptyStorage)"
    by blast
  moreover
  from castVote_failures [OF getPolls_seeded, of "str ''poll-1''" "str ''opt-2-1''" "str ''user-42''"] b
  have "castVote (init emptyStorage) (str ''poll-1'') (str ''opt-2-1'') (str ''user-42'')
     = (Inl (Error (str ''Invalid option selected.'')), init emptyStorage)"
    by blast
  ultimately show ?thesis by (rule conjI)
qed

section \<open>Signing in\<close>

text \<open>
  C7. For every username whose trimmed length is less than 3, \<open>signIn\<close> fails with the
  validation error and returns the storage it was given, so \<open>getCurrentUser\<close> gives the same
  result before and after the call.
\<close>

theorem signIn_rejects_short:
  assumes "length (trim uname) < 3"
  shows "signIn st now uname =
           (Inl (Error (str ''Username must be at least 3 characters long.'')), st)
         \<and> getCurrentUser (snd (signIn st now uname)) = getCurrentUser st"
  using assms by (simp add: signIn_def)

theorem signIn_rejects_short_witness:
  "signIn (init emptyStorage) 1730000000000 (str ''  ab  '') =
     (Inl (Error (str ''Username must be at least 3 characters long.'')), init emptyStorage)
   \<and> getCurrentUser (snd (signIn (init emptyStorage) 1730000000000 (str ''  ab  '')))
       = getCurrentUser (init emptyStorage)"
proof -
  have "length (trim (str ''  ab  '')) < 3" by (simp add: string_evals)
  then show ?thesis by (rule signIn_rejects_short)
qed

text \<open>
  C8. For every username whose trimmed length is at least 3, \<open>signIn\<close> succeeds and returns
  a user whose \<open>username\<close> is the trimmed input (and whose id is \<open>user-\<close> followed by the
  clock value); whatever the session record was, it is replaced by that user, so that
  \<open>getCurrentUser\<close> afterwards returns it. The poll collection is untouched.
\<close>

theorem signIn_accepts:
  assumes "3 \<le> length (trim uname)"
  shows "signIn st now uname =
           (Inr \<lparr>user_id = str ''user-'' @ showInt now, username = trim uname\<rparr>,
            st\<lparr>polly_current_user :=
                 Some \<lparr>user_id = str ''user-'' @ showInt now, username = trim uname\<rparr>\<rparr>)
         \<and> getCurrentUser (snd (signIn st now uname)) =
             Some \<lparr>user_id = str ''user-'' @ showInt now, username = trim uname\<rparr>
         \<and> polly_polls (snd (signIn st now uname)) = polly_polls st"
proof -
  from assms have "uname \<noteq> []" by (auto simp: trim_Nil)
  with assms show ?thesis by (simp add: signIn_def getCurrentUser_def Let_def)
qed

theorem signIn_accepts_witness:
  "getCurrentUser (snd (signIn (init emptyStorage) 1730000000000 (str ''  alice ''))) =
     Some \<lparr>user_id = str ''user-1730000000000'', username = str ''alice''\<rparr>"
proof -
  have h: "3 \<le> length (trim (str ''  alice ''))" by (simp add: string_evals)
  have "trim (str ''  alice '') = str ''alice''" by (simp add: string_evals)
  moreover have "str ''user-'' @ showInt 1730000000000 = str ''user-1730000000000''"
    by (simp add: showInt_def showNat.simps str_def)
  ultimately show ?thesis
    using signIn_accepts [OF h, of "init emptyStorage" 1730000000000, THEN conjunct2, THEN conjunct1]
    by simp
qed

section \<open>Listing polls\<close>

text \<open>
  C10. When the key \<open>polly_polls\<close> is absent from storage, \<open>getPolls\<close> does not fail: it
  returns the empty sequence.
\<close>

theorem getPolls_absent: "polly_polls st = None \<Longrightarrow> getPolls st = []"
  by (simp add: getPolls_def)

theorem getPolls_absent_witness:
  "polly_polls emptyStorage = None \<and> getPolls emptyStorage = []"
  using getPolls_absent [of emptyStorage] by (simp add: emptyStorage_def)

end
